theory Spec2Isabelle
  imports Main "HOL-Library.Log_Nat" "HOL-Library.Multiset"
begin

section \<open>Python floats\<close>

text \<open>
  A Python \<open>float\<close> is an IEEE-754 binary64 value. The finite ones are modelled by the
  rational number they denote, the others by constructors of their own. The sign of zero
  is not kept: \<open>-0.0 == 0.0\<close> in Python, and no function below divides by a variable
  or prints a zero.
\<close>

datatype double = Fin rat | PInf | NInf | NaN

text \<open>\<open>ilog2 q\<close> is the binary exponent of a positive rational: \<open>2 ^ ilog2 q \<le> q < 2 ^ (ilog2 q + 1)\<close>.\<close>

definition ilog2 :: "rat \<Rightarrow> int" where
  "ilog2 q = (if 1 \<le> q then bitlen \<lfloor>q\<rfloor> - 1 else - bitlen (\<lceil>1 / q\<rceil> - 1))"

text \<open>Rounding to the nearest integer, ties to the even one (the IEEE default mode).\<close>

definition round_half_even :: "rat \<Rightarrow> int" where
  "round_half_even x =
     (let f = \<lfloor>x\<rfloor>; d = x - of_int f
      in if d < 1 / 2 then f else if 1 / 2 < d then f + 1 else if even f then f else f + 1)"

text \<open>
  The exponent of the last place of a binary64 value near \<open>q\<close>: 53 significant bits, and
  never below the subnormal spacing \<open>2 ^ -1074\<close>.
\<close>

definition quantum :: "rat \<Rightarrow> int" where
  "quantum q = max (ilog2 \<bar>q\<bar> - 52) (- 1074)"

text \<open>The nearest multiple of the last place, ties to the even multiple.\<close>

definition grid :: "rat \<Rightarrow> rat" where
  "grid q = of_int (round_half_even (q / 2 powi quantum q)) * 2 powi quantum q"

text \<open>The result of an arithmetic operation whose exact value is \<open>q\<close>; overflow gives an infinity.\<close>

definition rnd :: "rat \<Rightarrow> double" where
  "rnd q =
     (if q = 0 then Fin 0
      else let r = grid q
           in if 2 ^ 1024 \<le> r then PInf else if r \<le> - (2 ^ 1024) then NInf else Fin r)"

fun fneg :: "double \<Rightarrow> double" where
  "fneg (Fin a) = Fin (- a)"
| "fneg PInf = NInf"
| "fneg NInf = PInf"
| "fneg NaN = NaN"

fun fadd :: "double \<Rightarrow> double \<Rightarrow> double" where
  "fadd NaN _ = NaN"
| "fadd _ NaN = NaN"
| "fadd PInf NInf = NaN"
| "fadd NInf PInf = NaN"
| "fadd PInf _ = PInf"
| "fadd _ PInf = PInf"
| "fadd NInf _ = NInf"
| "fadd _ NInf = NInf"
| "fadd (Fin a) (Fin b) = rnd (a + b)"

definition fsub :: "double \<Rightarrow> double \<Rightarrow> double" where
  "fsub x y = fadd x (fneg y)"

text \<open>The sign of a value: \<open>1\<close>, \<open>0\<close> or \<open>-1\<close> (\<open>0\<close> for NaN, which never reaches it).\<close>

fun fsgn :: "double \<Rightarrow> int" where
  "fsgn (Fin a) = (if a = 0 then 0 else if 0 < a then 1 else - 1)"
| "fsgn PInf = 1"
| "fsgn NInf = - 1"
| "fsgn NaN = 0"

text \<open>An infinity times a value of sign \<open>s\<close>; infinity times zero is NaN.\<close>

definition inf_of_sign :: "int \<Rightarrow> double" where
  "inf_of_sign s = (if s = 0 then NaN else if 0 < s then PInf else NInf)"

fun fmul :: "double \<Rightarrow> double \<Rightarrow> double" where
  "fmul NaN _ = NaN"
| "fmul _ NaN = NaN"
| "fmul (Fin a) (Fin b) = rnd (a * b)"
| "fmul x y = inf_of_sign (fsgn x * fsgn y)"

text \<open>
  Division by a finite constant \<open>b\<close>. The program divides by the literal \<open>5.0\<close> only,
  so Python's ZeroDivisionError is not a branch: \<open>b \<noteq> 0\<close> at every call.
\<close>

fun fdivc :: "double \<Rightarrow> rat \<Rightarrow> double" where
  "fdivc (Fin a) b = rnd (a / b)"
| "fdivc PInf b = (if 0 < b then PInf else NInf)"
| "fdivc NInf b = (if 0 < b then NInf else PInf)"
| "fdivc NaN b = NaN"

text \<open>Python's \<open><\<close> and \<open><=\<close> on floats: every comparison with NaN is false.\<close>

fun flt :: "double \<Rightarrow> double \<Rightarrow> bool" where
  "flt NaN _ = False"
| "flt _ NaN = False"
| "flt (Fin a) (Fin b) = (a < b)"
| "flt PInf _ = False"
| "flt _ NInf = False"
| "flt _ PInf = True"
| "flt NInf _ = True"

fun fle :: "double \<Rightarrow> double \<Rightarrow> bool" where
  "fle NaN _ = False"
| "fle _ NaN = False"
| "fle x y = (x = y \<or> flt x y)"

section \<open>Display units (app.py)\<close>

text \<open>\<^verbatim>\<open>def c_to_f(value_c): return value_c * 9.0 / 5.0 + 32.0\<close>, evaluated left to right.\<close>

definition c_to_f :: "double \<Rightarrow> double" where
  "c_to_f value_c = fadd (fdivc (fmul value_c (Fin 9)) 5) (Fin 32)"

text \<open>
  The unit switch of \<open>render_hero\<close>, \<open>render_detail_cards\<close> and \<open>render_hourly_chart\<close>:
  \<^verbatim>\<open>c_to_f(temp_c) if use_fahrenheit else temp_c\<close>.
\<close>

definition to_display_unit :: "double \<Rightarrow> bool \<Rightarrow> double" where
  "to_display_unit value_celsius use_fahrenheit =
     (if use_fahrenheit then c_to_f value_celsius else value_celsius)"

section \<open>Values, frames and the store\<close>

text \<open>
  Python values as the pipeline and the dashboard handle them: the parsed JSON document,
  the cells of a DataFrame and the cells of a stored row. \<open>PTime\<close> is a naive
  timestamp, in microseconds since the epoch; \<open>PNone\<close> is also SQL's NULL.
\<close>

datatype pyval =
    PNone
  | PBool bool
  | PInt int
  | PFloat double
  | PStr string
  | PList "pyval list"
  | PDict "(string \<times> pyval) list"
  | PTime int

text \<open>
  A dict, a one-row DataFrame and a stored row are association lists from key or
  column name to value, in insertion order; keys are looked up with \<open>map_of\<close>.
\<close>

type_synonym frame = "(string \<times> pyval) list"

datatype error =
    KeyError string
  | IndexError
  | TypeError
  | ValueError
  | OverflowError
  | OutOfBoundsDatetime
  | ProgrammingError
  | IntegrityError
  | DataError

datatype coltype = TSerial | TVarchar nat | TFloat | TInt | TTimestamp

text \<open>
  A table: its columns (name, type, NOT NULL), its rows in insertion order, and the next
  value of the sequence behind its SERIAL column.
\<close>

record table =
  tcols :: "(string \<times> coltype \<times> bool) list"
  trows :: "frame list"
  next_id :: int

text \<open>The database: its schemas (namespaces) and its tables, keyed by schema and name.\<close>

record db =
  schemas :: "string list"
  tables :: "((string \<times> string) \<times> table) list"

definition SCHEMA :: string where
  "SCHEMA = ''weather''"

definition TABLE :: string where
  "TABLE = ''weather_data''"

section \<open>The series query (app.py)\<close>

text \<open>\<^verbatim>\<open>if city:\<close> is false for \<open>None\<close> and for the empty string.\<close>

definition truthy :: "string option \<Rightarrow> bool" where
  "truthy city = (case city of None \<Rightarrow> False | Some c \<Rightarrow> c \<noteq> [])"

text \<open>\<^verbatim>\<open>collection_timestamp BETWEEN :start AND :end\<close>: inclusive; NULL never matches.\<close>

definition ts_between :: "int \<Rightarrow> int \<Rightarrow> frame \<Rightarrow> bool" where
  "ts_between start_dt end_dt r =
     (case map_of r ''collection_timestamp'' of
        Some (PTime t) \<Rightarrow> start_dt \<le> t \<and> t \<le> end_dt
      | _ \<Rightarrow> False)"

text \<open>\<^verbatim>\<open>city = :city\<close>.\<close>

definition city_is :: "string \<Rightarrow> frame \<Rightarrow> bool" where
  "city_is c r = (map_of r ''city'' = Some (PStr c))"

text \<open>
  The list \<open>filters\<close> of \<open>load_data\<close>, as predicates on a row, and the columns they name.
\<close>

definition filters :: "string option \<Rightarrow> int \<Rightarrow> int \<Rightarrow> (frame \<Rightarrow> bool) list" where
  "filters city start_dt end_dt =
     [ts_between start_dt end_dt] @ (if truthy city then [city_is (the city)] else [])"

definition filter_columns :: "string option \<Rightarrow> string list" where
  "filter_columns city = [''collection_timestamp''] @ (if truthy city then [''city''] else [])"

text \<open>The key of \<^verbatim>\<open>ORDER BY collection_timestamp\<close> and of \<open>sort_values\<close>.\<close>

definition ts_key :: "frame \<Rightarrow> int" where
  "ts_key r = (case map_of r ''collection_timestamp'' of Some (PTime t) \<Rightarrow> t | _ \<Rightarrow> 0)"

text \<open>\<open>c.lower()\<close> on the ASCII letters of a column name.\<close>

definition lower_char :: "char \<Rightarrow> char" where
  "lower_char c = (let n = of_char c :: nat in if 65 \<le> n \<and> n \<le> 90 then char_of (n + 32) else c)"

definition lower_columns :: "frame \<Rightarrow> frame" where
  "lower_columns r = map (\<lambda>(k, v). (map lower_char k, v)) r"

text \<open>
  \<open>load_data\<close>: the rows of \<open>weather.weather_data\<close> that pass every filter, ascending
  by \<open>collection_timestamp\<close> (rows with equal timestamps are kept in stored order here;
  SQL leaves their order open). A missing table or filter column is the database's
  error. A non-empty result gets lower-case column names.
\<close>

definition load_data :: "db \<Rightarrow> string option \<Rightarrow> int \<Rightarrow> int \<Rightarrow> error + frame list" where
  "load_data d city start_dt end_dt =
     (case map_of (tables d) (SCHEMA, TABLE) of
        None \<Rightarrow> Inl ProgrammingError
      | Some t \<Rightarrow>
          if \<not> set (filter_columns city) \<subseteq> set (map fst (tcols t)) then Inl ProgrammingError
          else
            let rows = sort_key ts_key
                        (filter (\<lambda>r. list_all (\<lambda>f. f r) (filters city start_dt end_dt)) (trows t))
            in Inr (if rows = [] then rows else map lower_columns rows))"

section \<open>The dashboard (app.py)\<close>

text \<open>
  \<open>float(latest.get(key, float("nan")))\<close>: a missing key gives NaN; \<open>float(None)\<close>
  raises TypeError, and so does a timestamp, a list or a dict; an integer too large for a
  float raises OverflowError. Python parses a numeric string; a FLOAT column never
  yields a string, and every string is refused here.
\<close>

definition py_float :: "pyval \<Rightarrow> error + double" where
  "py_float v =
     (case v of
        PFloat x \<Rightarrow> Inr x
      | PInt n \<Rightarrow> (case rnd (of_int n) of Fin r \<Rightarrow> Inr (Fin r) | _ \<Rightarrow> Inl OverflowError)
      | PBool b \<Rightarrow> Inr (Fin (if b then 1 else 0))
      | PStr _ \<Rightarrow> Inl ValueError
      | _ \<Rightarrow> Inl TypeError)"

definition get_float :: "frame \<Rightarrow> string \<Rightarrow> error + double" where
  "get_float latest key = (case map_of latest key of None \<Rightarrow> Inr NaN | Some v \<Rightarrow> py_float v)"

text \<open>
  What the dashboard shows: the warning that there is no data, or the hero section for
  the latest row with its two temperatures in the chosen unit.
\<close>

datatype view = NoData | Hero frame double double

text \<open>
  \<open>render_hero\<close>, up to the two temperatures it prints (\<open>temp_display\<close> and
  \<open>feels_display\<close>).
\<close>

definition render_hero :: "frame \<Rightarrow> bool \<Rightarrow> error + view" where
  "render_hero latest use_fahrenheit =
     (case get_float latest ''temperature_c'' of
        Inl e \<Rightarrow> Inl e
      | Inr temp_c \<Rightarrow>
          (case get_float latest ''thermal_sensation_c'' of
             Inl e \<Rightarrow> Inl e
           | Inr feels_c \<Rightarrow>
               Inr (Hero latest (to_display_unit temp_c use_fahrenheit)
                                (to_display_unit feels_c use_fahrenheit))))"

text \<open>
  The date range of \<open>main\<close>: from the start of yesterday to the last microsecond of
  today; \<open>today\<close> counts days since the epoch.
\<close>

definition day_us :: int where
  "day_us = 86400000000"

definition default_range :: "int \<Rightarrow> int \<times> int" where
  "default_range today = ((today - 1) * day_us, today * day_us + (day_us - 1))"

text \<open>
  \<open>main\<close>, with the widget values as arguments: the city chosen in the select box and
  the unit toggle. It returns what is shown together with the database, which it only
  queries.
\<close>

definition main :: "db \<Rightarrow> int \<Rightarrow> string option \<Rightarrow> bool \<Rightarrow> error + view \<times> db" where
  "main d today city unit_f =
     (let (start_dt, end_dt) = default_range today
      in case load_data d city start_dt end_dt of
           Inl e \<Rightarrow> Inl e
         | Inr df \<Rightarrow>
             if df = [] then Inr (NoData, d)
             else
               let latest_row = last (sort_key ts_key df)
               in case render_hero latest_row unit_f of
                    Inl e \<Rightarrow> Inl e
                  | Inr v \<Rightarrow> Inr (v, d))"

section \<open>Hourly resampling (app.py)\<close>


definition hour_us :: int where
  "hour_us = 3600000000"

text \<open>
  The start of the wall-clock hour that holds a timestamp: the label of its bin under
  \<open>resample("1H")\<close>, whose bins are closed on the left and aligned to midnight.
\<close>

definition bucket_start :: "int \<Rightarrow> int" where
  "bucket_start t = (t div hour_us) * hour_us"

text \<open>
  A cell of a numeric column of the DataFrame: NULL is NaN there, an integer is
  converted, and text or a timestamp cannot be averaged.
\<close>

definition cell_float :: "pyval \<Rightarrow> error + double" where
  "cell_float v =
     (case v of
        PFloat x \<Rightarrow> Inr x
      | PInt n \<Rightarrow> Inr (rnd (of_int n))
      | PNone \<Rightarrow> Inr NaN
      | _ \<Rightarrow> Inl TypeError)"

text \<open>\<^verbatim>\<open>df.set_index("collection_timestamp")[key]\<close>: the series of one column, indexed by time.\<close>

fun series_of :: "frame list \<Rightarrow> string \<Rightarrow> error + (int \<times> double) list" where
  "series_of [] key = Inr []"
| "series_of (r # rs) key =
     (case map_of r ''collection_timestamp'' of
        None \<Rightarrow> Inl (KeyError ''collection_timestamp'')
      | Some (PTime t) \<Rightarrow>
          (case map_of r key of
             None \<Rightarrow> Inl (KeyError key)
           | Some v \<Rightarrow>
               (case cell_float v of
                  Inl e \<Rightarrow> Inl e
                | Inr x \<Rightarrow>
                    (case series_of rs key of
                       Inl e \<Rightarrow> Inl e
                     | Inr ser \<Rightarrow> Inr ((t, x) # ser))))
      | Some _ \<Rightarrow> Inl TypeError)"

text \<open>
  The mean of one bin. pandas skips NaN and gives NaN for a bin with no value left; how
  it averages the values of a non-empty bin is the library's float summation, taken as
  the parameter \<open>mean_fn\<close>.
\<close>

definition bucket_mean :: "(double list \<Rightarrow> double) \<Rightarrow> double list \<Rightarrow> double" where
  "bucket_mean mean_fn vs = (let xs = filter (\<lambda>x. x \<noteq> NaN) vs in if xs = [] then NaN else mean_fn xs)"

text \<open>
  \<open>.resample("1H").mean()\<close>: one bin for every hour from the hour of the earliest
  timestamp to the hour of the latest, in ascending order, each with the mean of the
  values that fall into it.
\<close>

definition resample_mean :: "(double list \<Rightarrow> double) \<Rightarrow> (int \<times> double) list \<Rightarrow> (int \<times> double) list" where
  "resample_mean mean_fn ser =
     (if ser = [] then []
      else
        let hs = map (\<lambda>(t, v). t div hour_us) ser
        in map (\<lambda>h. (h * hour_us,
                      bucket_mean mean_fn (map snd (filter (\<lambda>(t, v). t div hour_us = h) ser))))
               [Min (set hs) .. Max (set hs)])"

text \<open>\<open>.dropna()\<close>.\<close>

definition dropna :: "(int \<times> double) list \<Rightarrow> (int \<times> double) list" where
  "dropna ser = filter (\<lambda>(b, m). m \<noteq> NaN) ser"

text \<open>
  The hourly series of \<open>render_hourly_chart\<close> (\<open>key\<close> is \<open>temperature_c\<close>) and of
  \<open>render_extra_timeseries\<close>:
  \<^verbatim>\<open>df.set_index("collection_timestamp")[key].resample("1H").mean().dropna().reset_index()\<close>.
\<close>

definition hourly_mean :: "(double list \<Rightarrow> double) \<Rightarrow> frame list \<Rightarrow> string \<Rightarrow> error + (int \<times> double) list" where
  "hourly_mean mean_fn df key =
     (case series_of df key of
        Inl e \<Rightarrow> Inl e
      | Inr ser \<Rightarrow> Inr (dropna (resample_mean mean_fn ser)))"

text \<open>What \<open>render_hourly_chart\<close> shows: one of its two notices, or the area chart.\<close>

datatype chart = NoDataForRange | NotEnoughData | AreaChart "(int \<times> double) list"

definition render_hourly_chart :: "(double list \<Rightarrow> double) \<Rightarrow> frame list \<Rightarrow> bool \<Rightarrow> error + chart" where
  "render_hourly_chart mean_fn df use_fahrenheit =
     (if df = [] then Inr NoDataForRange
      else case hourly_mean mean_fn df ''temperature_c'' of
             Inl e \<Rightarrow> Inl e
           | Inr hourly \<Rightarrow>
               if hourly = [] then Inr NotEnoughData
               else Inr (AreaChart (map (\<lambda>(b, m). (b, to_display_unit m use_fahrenheit)) hourly)))"

section \<open>Provisioning and loading (weather_pipeline.py)\<close>

text \<open>
  The columns of \<^verbatim>\<open>CREATE TABLE IF NOT EXISTS weather.weather_data\<close>, in order, with the
  names as PostgreSQL stores unquoted identifiers: in lower case.
\<close>

definition weather_columns :: "(string \<times> coltype \<times> bool) list" where
  "weather_columns =
     [(''id'', TSerial, True),
      (''city'', TVarchar 100, True),
      (''temperature_k'', TFloat, True),
      (''humidity'', TFloat, True),
      (''thermal_sensation_k'', TFloat, True),
      (''temp_min_k'', TFloat, True),
      (''temp_max_k'', TFloat, True),
      (''pressure'', TFloat, False),
      (''wind_speed'', TFloat, False),
      (''wind_direction'', TFloat, False),
      (''latitude'', TFloat, True),
      (''longitude'', TFloat, True),
      (''temperature_c'', TFloat, True),
      (''thermal_sensation_c'', TFloat, True),
      (''temp_min_c'', TFloat, True),
      (''temp_max_c'', TFloat, True),
      (''weather_id'', TInt, True),
      (''weather_main'', TVarchar 100, True),
      (''weather_description'', TVarchar 255, True),
      (''weather_icon'', TVarchar 100, True),
      (''sys_id'', TInt, True),
      (''sys_country'', TVarchar 100, True),
      (''sys_sunrise'', TTimestamp, True),
      (''sys_sunset'', TTimestamp, True),
      (''collection_timestamp'', TTimestamp, True)]"

text \<open>
  \<open>_ensure_schema_exists\<close>: \<^verbatim>\<open>CREATE SCHEMA IF NOT EXISTS weather\<close>. An exception is
  printed and raised again; the statement itself raises none on a database that answers.
\<close>

definition ensure_schema_exists :: "db \<Rightarrow> error + db" where
  "ensure_schema_exists d =
     Inr (if ''weather'' \<in> set (schemas d) then d else d\<lparr>schemas := schemas d @ [''weather'']\<rparr>)"

text \<open>
  \<open>_ensure_table_exists\<close>: \<^verbatim>\<open>CREATE TABLE IF NOT EXISTS weather.weather_data (...)\<close>. An
  existing table of that name is left as it is, whatever its columns; a missing schema
  is the database's error.
\<close>

definition ensure_table_exists :: "db \<Rightarrow> error + db" where
  "ensure_table_exists d =
     (if ''weather'' \<notin> set (schemas d) then Inl ProgrammingError
      else case map_of (tables d) (''weather'', ''weather_data'') of
             Some _ \<Rightarrow> Inr d
           | None \<Rightarrow>
               Inr (d\<lparr>tables := tables d @
                      [((''weather'', ''weather_data''),
                        \<lparr>tcols = weather_columns, trows = [], next_id = 1\<rparr>)]\<rparr>))"

text \<open>The provisioning of \<open>load\<close>: the schema first, then the table.\<close>

definition provision :: "db \<Rightarrow> error + db" where
  "provision d =
     (case ensure_schema_exists d of
        Inl e \<Rightarrow> Inl e
      | Inr d1 \<Rightarrow> ensure_table_exists d1)"

text \<open>pandas writes a NaN as NULL.\<close>

definition to_sql_value :: "pyval \<Rightarrow> pyval" where
  "to_sql_value v = (case v of PFloat NaN \<Rightarrow> PNone | _ \<Rightarrow> v)"

text \<open>
  The values a column takes. The DataFrame read back from the CSV file holds its
  timestamps as text that PostgreSQL parses; they are \<open>PTime\<close> values here. A value of
  another Python type is refused, though PostgreSQL would cast some of them.
\<close>

definition accepts :: "coltype \<Rightarrow> pyval \<Rightarrow> bool" where
  "accepts ty v =
     (case (ty, v) of
        (TFloat, PFloat _) \<Rightarrow> True
      | (TFloat, PInt n) \<Rightarrow> \<bar>n\<bar> < 2 ^ 1024
      | (TInt, PInt n) \<Rightarrow> - (2 ^ 31) \<le> n \<and> n < 2 ^ 31
      | (TSerial, PInt n) \<Rightarrow> - (2 ^ 31) \<le> n \<and> n < 2 ^ 31
      | (TVarchar k, PStr s) \<Rightarrow> length s \<le> k
      | (TTimestamp, PTime _) \<Rightarrow> True
      | _ \<Rightarrow> False)"

text \<open>Whether some stored row holds the value \<open>v\<close> in the column \<open>name\<close>.\<close>

definition key_stored :: "string \<Rightarrow> pyval \<Rightarrow> frame list \<Rightarrow> bool" where
  "key_stored name v rows = list_ex (\<lambda>r. map_of r name = Some v) rows"

text \<open>
  The cell stored in one column for a DataFrame row: the row's value, or the column's
  default where the row has no such column (the next sequence value for a SERIAL column,
  NULL otherwise). NULL in a NOT NULL column and a primary key already stored are
  integrity errors.
\<close>

definition cell_for :: "frame list \<Rightarrow> int \<Rightarrow> frame \<Rightarrow> string \<times> coltype \<times> bool \<Rightarrow> error + pyval" where
  "cell_for rows nid df col =
     (case col of (name, ty, not_null) \<Rightarrow>
        let v = (case map_of df name of
                   Some x \<Rightarrow> to_sql_value x
                 | None \<Rightarrow> if ty = TSerial then PInt nid else PNone)
        in if v = PNone then (if not_null then Inl IntegrityError else Inr PNone)
           else if \<not> accepts ty v then Inl DataError
           else if ty = TSerial \<and> key_stored name v rows then Inl IntegrityError
           else Inr v)"

fun build_row :: "frame list \<Rightarrow> int \<Rightarrow> frame \<Rightarrow> (string \<times> coltype \<times> bool) list \<Rightarrow> error + frame" where
  "build_row rows nid df [] = Inr []"
| "build_row rows nid df (col # cols) =
     (case cell_for rows nid df col of
        Inl e \<Rightarrow> Inl e
      | Inr v \<Rightarrow>
          (case build_row rows nid df cols of
             Inl e \<Rightarrow> Inl e
           | Inr r \<Rightarrow> Inr ((fst col, v) # r)))"

text \<open>
  \<^verbatim>\<open>INSERT INTO weather.weather_data (<the DataFrame's columns>) VALUES (...)\<close>: a column the
  table does not have is the database's error; the sequence advances when it supplied
  the key.
\<close>

definition insert_row :: "table \<Rightarrow> frame \<Rightarrow> error + table" where
  "insert_row t df =
     (if \<not> set (map fst df) \<subseteq> set (map fst (tcols t)) then Inl ProgrammingError
      else case build_row (trows t) (next_id t) df (tcols t) of
             Inl e \<Rightarrow> Inl e
           | Inr r \<Rightarrow>
               Inr (t\<lparr>trows := trows t @ [r],
                      next_id := (if \<exists>c \<in> set (tcols t). fst (snd c) = TSerial \<and> map_of df (fst c) = None
                                  then next_id t + 1 else next_id t)\<rparr>))"

text \<open>Replacing the table stored under a key.\<close>

fun put_table :: "string \<times> string \<Rightarrow> table \<Rightarrow> ((string \<times> string) \<times> table) list \<Rightarrow> ((string \<times> string) \<times> table) list" where
  "put_table k t [] = [(k, t)]"
| "put_table k t ((k', t') # ts) = (if k' = k then (k, t) # ts else (k', t') # put_table k t ts)"

text \<open>
  \<open>load\<close>, given the one-row DataFrame read from the CSV file: provision, then
  \<^verbatim>\<open>df.to_sql("weather_data", conn, if_exists="append", index=False, schema="weather")\<close>.
  The table exists when \<open>to_sql\<close> runs, so pandas never creates it.
\<close>

definition load :: "db \<Rightarrow> frame \<Rightarrow> error + db" where
  "load d df =
     (case ensure_schema_exists d of
        Inl e \<Rightarrow> Inl e
      | Inr d1 \<Rightarrow>
          (case ensure_table_exists d1 of
             Inl e \<Rightarrow> Inl e
           | Inr d2 \<Rightarrow>
               (case map_of (tables d2) (''weather'', ''weather_data'') of
                  None \<Rightarrow> Inl ProgrammingError
                | Some t \<Rightarrow>
                    (case insert_row t df of
                       Inl e \<Rightarrow> Inl e
                     | Inr t' \<Rightarrow>
                         Inr (d2\<lparr>tables := put_table (''weather'', ''weather_data'') t' (tables d2)\<rparr>)))))"

definition empty_db :: db where
  "empty_db = \<lparr>schemas = [], tables = []\<rparr>"

section \<open>Rows and tables of the pipeline\<close>

text \<open>
  A DataFrame row that satisfies the constraints of one column: a value of the column's
  type, or no value (none given, NULL or NaN) where the column is nullable.
\<close>

definition valid_cell :: "frame \<Rightarrow> string \<times> coltype \<times> bool \<Rightarrow> bool" where
  "valid_cell df col =
     (case col of (name, ty, not_null) \<Rightarrow>
        (case map_of df name of
           None \<Rightarrow> \<not> not_null
         | Some x \<Rightarrow> if to_sql_value x = PNone then \<not> not_null else accepts ty (to_sql_value x)))"

text \<open>
  A WeatherRow as the pipeline writes it: columns of the table only, no \<open>id\<close> (the
  storage assigns it), and every column constraint satisfied.
\<close>

definition valid_weather_row :: "frame \<Rightarrow> bool" where
  "valid_weather_row df =
     (set (map fst df) \<subseteq> set (map fst weather_columns)
      \<and> map_of df ''id'' = None
      \<and> list_all (valid_cell df) (tl weather_columns))"

text \<open>
  The table as the provisioner creates it and \<open>load\<close> fills it: the pipeline's columns,
  every stored key below the next sequence value, and two more keys left in the
  SERIAL range.
\<close>

definition pipeline_table :: "table \<Rightarrow> bool" where
  "pipeline_table t =
     (tcols t = weather_columns
      \<and> - (2 ^ 31) \<le> next_id t \<and> next_id t + 1 < 2 ^ 31
      \<and> list_all (\<lambda>r. case map_of r ''id'' of Some (PInt i) \<Rightarrow> i < next_id t | _ \<Rightarrow> False) (trows t))"

definition pipeline_db :: "db \<Rightarrow> bool" where
  "pipeline_db d =
     (case map_of (tables d) (''weather'', ''weather_data'') of
        None \<Rightarrow> True
      | Some t \<Rightarrow> pipeline_table t)"

section \<open>Example data\<close>

text \<open>A stored row and a database holding it, for evaluating the functions above.\<close>

definition example_row :: frame where
  "example_row =
     [(''id'', PInt 1), (''city'', PStr ''Rio de Janeiro''),
      (''temperature_c'', PFloat (Fin 100)), (''thermal_sensation_c'', PFloat (Fin 0)),
      (''collection_timestamp'', PTime 5)]"

definition example_table :: table where
  "example_table =
     \<lparr>tcols = [(''id'', TSerial, True), (''city'', TVarchar 100, True),
               (''temperature_c'', TFloat, True), (''thermal_sensation_c'', TFloat, True),
               (''collection_timestamp'', TTimestamp, True)],
      trows = [example_row], next_id = 2\<rparr>"


definition example_row2 :: frame where
  "example_row2 =
     [(''id'', PInt 2), (''city'', PStr ''Niteroi''),
      (''temperature_c'', PFloat (Fin 0)), (''thermal_sensation_c'', PFloat (Fin 0)),
      (''collection_timestamp'', PTime 7)]"

definition example_db2 :: db where
  "example_db2 =
     \<lparr>schemas = [''weather''],
      tables = [((''weather'', ''weather_data''),
                 example_table\<lparr>trows := [example_row2, example_row], next_id := 3\<rparr>)]\<rparr>"

definition example_empty_db :: db where
  "example_empty_db =
     \<lparr>schemas = [''weather''],
      tables = [((''weather'', ''weather_data''), example_table\<lparr>trows := [], next_id := 1\<rparr>)]\<rparr>"

text \<open>The row of the scenario: Rio de Janeiro at 300 K, collected at microsecond 5.\<close>

definition example_weather_row :: frame where
  "example_weather_row =
     [(''city'', PStr ''Rio de Janeiro''),
      (''temperature_k'', PFloat (Fin 300)),
      (''humidity'', PInt 80),
      (''thermal_sensation_k'', PFloat (Fin 299)),
      (''temp_min_k'', PFloat (Fin 298)),
      (''temp_max_k'', PFloat (Fin 301)),
      (''pressure'', PInt 1012),
      (''wind_speed'', PFloat (Fin (11 / 2))),
      (''wind_direction'', PInt 120),
      (''latitude'', PFloat (Fin (- 3222888483337011 / 140737488355328))),
      (''longitude'', PFloat (Fin (- 3039929748475085 / 70368744177664))),
      (''weather_id'', PInt 800),
      (''weather_main'', PStr ''Clear''),
      (''weather_description'', PStr ''clear sky''),
      (''weather_icon'', PStr ''https://openweathermap.org/img/wn/01d@2x.png''),
      (''sys_id'', PInt 1),
      (''sys_country'', PStr ''BR''),
      (''sys_sunrise'', PTime 1699989200000000),
      (''sys_sunset'', PTime 1700029200000000),
      (''collection_timestamp'', PTime 5),
      (''temperature_c'', PFloat (Fin (236175097646285 / 8796093022208))),
      (''thermal_sensation_c'', PFloat (Fin (227379004624077 / 8796093022208))),
      (''temp_min_c'', PFloat (Fin (218582911601869 / 8796093022208))),
      (''temp_max_c'', PFloat (Fin (244971190668493 / 8796093022208)))]"



section \<open>Properties of the float arithmetic\<close>

lemma rnd_Fin: "q \<noteq> 0 \<Longrightarrow> grid q = r \<Longrightarrow> \<bar>r\<bar> < 2 ^ 1024 \<Longrightarrow> rnd q = Fin r"
  by (auto simp: rnd_def Let_def)

lemma two_pow_le_of_int: "2 ^ a \<le> (n::int) \<Longrightarrow> (2::rat) ^ a \<le> of_int n"
  by (metis of_int_le_iff of_int_numeral of_int_power)

lemma of_int_le_two_pow: "(n::int) \<le> 2 ^ a \<Longrightarrow> (of_int n :: rat) \<le> 2 ^ a"
  by (metis of_int_le_iff of_int_numeral of_int_power)

lemma powi_nonneg_eq: "0 \<le> k \<Longrightarrow> (2::rat) powi k = 2 ^ nat k"
  by (simp add: power_int_def)

lemma powi_neg_eq: "0 \<le> k \<Longrightarrow> (2::rat) powi (- k) = 1 / 2 ^ nat k"
  by (cases "k = 0") (simp_all add: power_int_def field_simps)

lemma ilog2_bounds:
  assumes "0 < q"
  shows "2 powi (ilog2 q) \<le> q \<and> q < 2 powi (ilog2 q + 1)"
proof (cases "1 \<le> q")
  case True
  define n where "n = \<lfloor>q\<rfloor>"
  have n1: "1 \<le> n" using True by (simp add: n_def le_floor_iff)
  then have n0: "0 < n" by simp
  have bl: "1 \<le> bitlen n" using n0 by (simp add: bitlen_alt_def)
  from bitlen_bounds[OF n0] have lo: "2 ^ nat (bitlen n - 1) \<le> n" and hi: "n < 2 ^ nat (bitlen n)" by auto
  have e: "ilog2 q = bitlen n - 1" using True by (simp add: ilog2_def n_def)
  have p1: "(2::rat) powi (bitlen n - 1) = 2 ^ nat (bitlen n - 1)" using bl by (intro powi_nonneg_eq) simp
  have r1: "(2::rat) ^ nat (bitlen n - 1) \<le> of_int n" using lo by (rule two_pow_le_of_int)
  have r2: "of_int n \<le> q" by (simp add: n_def)
  have A: "2 powi (ilog2 q) \<le> q" unfolding e p1 using r1 r2 by (rule order_trans)
  have "n + 1 \<le> 2 ^ nat (bitlen n)" using hi by simp
  then have r3: "(of_int (n + 1) :: rat) \<le> 2 ^ nat (bitlen n)" by (rule of_int_le_two_pow)
  have r4: "q < of_int (n + 1)" unfolding n_def by linarith
  have "(2::rat) powi (bitlen n - 1 + 1) = 2 ^ nat (bitlen n - 1 + 1)" using bl by (intro powi_nonneg_eq) simp
  then have p2: "(2::rat) powi (bitlen n - 1 + 1) = 2 ^ nat (bitlen n)" by simp
  have B: "q < 2 powi (ilog2 q + 1)" unfolding e p2 using r4 r3 by (rule less_le_trans)
  from A B show ?thesis by simp
next
  case False
  then have q1: "q < 1" by simp
  define c where "c = \<lceil>1 / q\<rceil>"
  define m where "m = c - 1"
  have inv1: "1 < 1 / q" using assms q1 by simp
  have c2: "2 \<le> c" unfolding c_def using inv1 by linarith
  then have m0: "0 < m" by (simp add: m_def)
  define k where "k = bitlen m"
  have k1: "1 \<le> k" using m0 by (simp add: k_def bitlen_alt_def)
  from bitlen_bounds[OF m0] have lo: "2 ^ nat (k - 1) \<le> m" and hi: "m < 2 ^ nat k" by (auto simp: k_def)
  have e: "ilog2 q = - k" using False by (simp add: ilog2_def c_def m_def k_def)
  have s1: "1 / q \<le> of_int c" by (simp add: c_def)
  have "c \<le> 2 ^ nat k" using hi by (simp add: m_def)
  then have s2: "(of_int c :: rat) \<le> 2 ^ nat k" by (rule of_int_le_two_pow)
  have "1 / q \<le> 2 ^ nat k" using s1 s2 by (rule order_trans)
  then have "1 \<le> 2 ^ nat k * q" using assms by (simp add: field_simps)
  then have s3: "1 / 2 ^ nat k \<le> q" by (simp add: field_simps)
  have p1: "(2::rat) powi (- k) = 1 / 2 ^ nat k" using k1 by (intro powi_neg_eq) simp
  have A: "2 powi (ilog2 q) \<le> q" unfolding e p1 by (rule s3)
  have t1: "(of_int m :: rat) < 1 / q" unfolding m_def c_def by linarith
  have t2: "(2::rat) ^ nat (k - 1) \<le> of_int m" using lo by (rule two_pow_le_of_int)
  have "(2::rat) ^ nat (k - 1) < 1 / q" using t2 t1 by (rule le_less_trans)
  then have "2 ^ nat (k - 1) * q < 1" using assms by (simp add: field_simps)
  then have t3: "q < 1 / 2 ^ nat (k - 1)" by (simp add: field_simps)
  have "(2::rat) powi (- (k - 1)) = 1 / 2 ^ nat (k - 1)" using k1 by (intro powi_neg_eq) simp
  then have p2: "(2::rat) powi (- k + 1) = 1 / 2 ^ nat (k - 1)" by (simp add: algebra_simps)
  have B: "q < 2 powi (ilog2 q + 1)" unfolding e p2 by (rule t3)
  from A B show ?thesis by simp
qed

lemma powi2_mono: "a \<le> b \<Longrightarrow> (2::rat) powi a \<le> 2 powi b"
  by (rule power_int_increasing) simp_all

lemma powi2_pos: "0 < (2::rat) powi a"
  by simp

lemma ilog2_mono:
  assumes "0 < q" "q \<le> q'"
  shows "ilog2 q \<le> ilog2 q'"
proof (rule ccontr)
  assume "\<not> ilog2 q \<le> ilog2 q'"
  then have "ilog2 q' + 1 \<le> ilog2 q" by simp
  then have "(2::rat) powi (ilog2 q' + 1) \<le> 2 powi (ilog2 q)" by (rule powi2_mono)
  moreover have "q' < 2 powi (ilog2 q' + 1)" using ilog2_bounds[of q'] assms by simp
  moreover have "2 powi (ilog2 q) \<le> q" using ilog2_bounds[of q] assms by simp
  ultimately show False using assms by linarith
qed

lemma ilog2_unique:
  assumes "0 < q" "2 powi k \<le> q" "q < 2 powi (k + 1)"
  shows "ilog2 q = k"
proof (rule antisym)
  show "ilog2 q \<le> k"
  proof (rule ccontr)
    assume "\<not> ilog2 q \<le> k"
    then have "k + 1 \<le> ilog2 q" by simp
    then have "(2::rat) powi (k + 1) \<le> 2 powi (ilog2 q)" by (rule powi2_mono)
    moreover have "2 powi (ilog2 q) \<le> q" using ilog2_bounds[of q] assms by simp
    ultimately show False using assms by linarith
  qed
  show "k \<le> ilog2 q"
  proof (rule ccontr)
    assume "\<not> k \<le> ilog2 q"
    then have "ilog2 q + 1 \<le> k" by simp
    then have "(2::rat) powi (ilog2 q + 1) \<le> 2 powi k" by (rule powi2_mono)
    moreover have "q < 2 powi (ilog2 q + 1)" using ilog2_bounds[of q] assms by simp
    ultimately show False using assms by linarith
  qed
qed

lemma rhe_cases: "round_half_even x = \<lfloor>x\<rfloor> \<or> round_half_even x = \<lfloor>x\<rfloor> + 1"
  by (simp add: round_half_even_def Let_def)

lemma rhe_of_int: "round_half_even (of_int n) = n"
  by (simp add: round_half_even_def Let_def)

lemma rhe_mono:
  assumes "x \<le> y"
  shows "round_half_even x \<le> round_half_even y"
proof (cases "\<lfloor>x\<rfloor> = \<lfloor>y\<rfloor>")
  case True
  have "x - of_int \<lfloor>x\<rfloor> \<le> y - of_int \<lfloor>y\<rfloor>" using assms True by simp
  then show ?thesis using True by (auto simp: round_half_even_def Let_def)
next
  case False
  then have "\<lfloor>x\<rfloor> + 1 \<le> \<lfloor>y\<rfloor>" using floor_mono[OF assms] by simp
  moreover have "round_half_even x \<le> \<lfloor>x\<rfloor> + 1" using rhe_cases[of x] by auto
  moreover have "\<lfloor>y\<rfloor> \<le> round_half_even y" using rhe_cases[of y] by auto
  ultimately show ?thesis by linarith
qed

lemma rhe_neg: "round_half_even (- x) = - round_half_even x"
proof (cases "x \<in> \<int>")
  case True
  then obtain n where "x = of_int n" by (auto elim: Ints_cases)
  then show ?thesis using rhe_of_int[of n] rhe_of_int[of "- n"] by simp
next
  case False
  define f where "f = \<lfloor>x\<rfloor>"
  have ne: "x \<noteq> of_int \<lfloor>x\<rfloor>" using False by (metis Ints_of_int)
  have fl: "\<lfloor>- x\<rfloor> = - f - 1" using ne unfolding f_def
    by (simp add: floor_minus ceiling_altdef)
  have d: "- x - of_int (- f - 1) = 1 - (x - of_int f)" by simp
  have f': "\<lfloor>x\<rfloor> = f" by (simp add: f_def)
  show ?thesis
    unfolding round_half_even_def Let_def fl f' d
    by (auto simp: algebra_simps)
qed


lemma quantum_neg: "quantum (- q) = quantum q"
  by (simp add: quantum_def)

lemma grid_neg: "grid (- q) = - grid q"
  by (simp add: grid_def quantum_neg rhe_neg)

lemma grid_0: "grid 0 = 0"
  by (simp add: grid_def rhe_of_int[of 0, simplified])

lemma quantum_mono: "0 < q \<Longrightarrow> q \<le> q' \<Longrightarrow> quantum q \<le> quantum q'"
  using ilog2_mono[of q q'] by (simp add: quantum_def)

lemma grid_same_quantum:
  assumes "q \<le> q'" "quantum q = quantum q'"
  shows "grid q \<le> grid q'"
proof -
  have "q / 2 powi quantum q' \<le> q' / 2 powi quantum q'"
    using assms(1) by (simp add: divide_right_mono)
  then have "round_half_even (q / 2 powi quantum q') \<le> round_half_even (q' / 2 powi quantum q')"
    by (rule rhe_mono)
  then have "(of_int (round_half_even (q / 2 powi quantum q')) :: rat)
      \<le> of_int (round_half_even (q' / 2 powi quantum q'))" by simp
  then show ?thesis unfolding grid_def assms(2)
    by (rule mult_right_mono) simp
qed

lemma grid_le_pow:
  assumes "0 < q" "q \<le> 2 powi b" "quantum q \<le> b"
  shows "grid q \<le> 2 powi b"
proof -
  define e where "e = quantum q"
  have eb: "0 \<le> b - e" using assms(3) by (simp add: e_def)
  have "(2::rat) powi b = 2 powi (b - e) * 2 powi e"
    by (simp add: power_int_add[symmetric])
  then have split: "(2::rat) powi b = of_int (2 ^ nat (b - e)) * 2 powi e"
    using eb by (simp add: power_int_def)
  have "q / 2 powi e \<le> 2 powi b / 2 powi e" using assms(2) by (simp add: divide_right_mono)
  also have "2 powi b / 2 powi e = (of_int (2 ^ nat (b - e)) :: rat)" unfolding split by simp
  finally have "round_half_even (q / 2 powi e) \<le> round_half_even (of_int (2 ^ nat (b - e)))"
    by (rule rhe_mono)
  then have "round_half_even (q / 2 powi e) \<le> 2 ^ nat (b - e)" by (simp only: rhe_of_int)
  then have "(of_int (round_half_even (q / 2 powi e)) :: rat) \<le> of_int (2 ^ nat (b - e))"
    by (simp only: of_int_le_iff)
  then have "of_int (round_half_even (q / 2 powi e)) * 2 powi e \<le> of_int (2 ^ nat (b - e)) * (2::rat) powi e"
    by (rule mult_right_mono) simp
  then show ?thesis unfolding grid_def e_def[symmetric] split .
qed

lemma grid_ge_pow:
  assumes "2 powi b \<le> q" "quantum q \<le> b"
  shows "2 powi b \<le> grid q"
proof -
  define e where "e = quantum q"
  have eb: "0 \<le> b - e" using assms(2) by (simp add: e_def)
  have "(2::rat) powi b = 2 powi (b - e) * 2 powi e"
    by (simp add: power_int_add[symmetric])
  then have split: "(2::rat) powi b = of_int (2 ^ nat (b - e)) * 2 powi e"
    using eb by (simp add: power_int_def)
  have "2 powi b / 2 powi e \<le> q / 2 powi e" using assms(1) by (simp add: divide_right_mono)
  moreover have "2 powi b / 2 powi e = (of_int (2 ^ nat (b - e)) :: rat)" unfolding split by simp
  ultimately have "(of_int (2 ^ nat (b - e)) :: rat) \<le> q / 2 powi e" by simp
  then have "round_half_even (of_int (2 ^ nat (b - e))) \<le> round_half_even (q / 2 powi e)"
    by (rule rhe_mono)
  then have "2 ^ nat (b - e) \<le> round_half_even (q / 2 powi e)" by (simp only: rhe_of_int)
  then have "(of_int (2 ^ nat (b - e)) :: rat) \<le> of_int (round_half_even (q / 2 powi e))"
    by (simp only: of_int_le_iff)
  then have "of_int (2 ^ nat (b - e)) * (2::rat) powi e \<le> of_int (round_half_even (q / 2 powi e)) * 2 powi e"
    by (rule mult_right_mono) simp
  then show ?thesis unfolding grid_def e_def[symmetric] split .
qed

lemma grid_mono_pos:
  assumes "0 < q" "q \<le> q'"
  shows "grid q \<le> grid q'"
proof (cases "quantum q = quantum q'")
  case True
  with assms(2) show ?thesis by (rule grid_same_quantum)
next
  case False
  have q'0: "0 < q'" using assms by simp
  have lt: "quantum q < quantum q'" using quantum_mono[OF assms] False by simp
  define b where "b = quantum q' + 52"
  have "- 1074 \<le> quantum q" by (simp add: quantum_def)
  then have "- 1074 < quantum q'" using lt by simp
  then have e': "quantum q' = ilog2 q' - 52" using q'0 by (simp add: quantum_def max_def split: if_splits)
  have lo: "2 powi b \<le> q'" using ilog2_bounds[OF q'0] by (simp add: b_def e')
  have "ilog2 q - 52 \<le> quantum q" using assms(1) by (simp add: quantum_def)
  then have "ilog2 q + 1 \<le> b" using lt by (simp add: b_def)
  then have "(2::rat) powi (ilog2 q + 1) \<le> 2 powi b" by (rule powi2_mono)
  then have hi: "q \<le> 2 powi b" using ilog2_bounds[OF assms(1)] by linarith
  have "grid q \<le> 2 powi b" using assms(1) hi by (rule grid_le_pow) (use lt in \<open>simp add: b_def\<close>)
  moreover have "2 powi b \<le> grid q'" using lo by (rule grid_ge_pow) (simp add: b_def)
  ultimately show ?thesis by (rule order_trans)
qed

lemma grid_nonneg: "0 \<le> q \<Longrightarrow> 0 \<le> grid q"
proof -
  assume "0 \<le> q"
  then have "0 \<le> q / 2 powi quantum q" by simp
  then have "round_half_even 0 \<le> round_half_even (q / 2 powi quantum q)" by (rule rhe_mono)
  then have "0 \<le> round_half_even (q / 2 powi quantum q)" using rhe_of_int[of 0] by simp
  then show ?thesis by (simp add: grid_def)
qed

lemma grid_mono:
  assumes "q \<le> q'"
  shows "grid q \<le> grid q'"
proof -
  consider "0 < q" | "q \<le> 0" "0 \<le> q'" | "q' < 0" by linarith
  then show ?thesis
  proof cases
    case 1
    then show ?thesis using assms by (rule grid_mono_pos)
  next
    case 2
    have "0 \<le> grid (- q)" using 2 by (intro grid_nonneg) simp
    then have "grid q \<le> 0" by (simp add: grid_neg)
    moreover have "0 \<le> grid q'" using 2 by (intro grid_nonneg)
    ultimately show ?thesis by simp
  next
    case 3
    have "grid (- q') \<le> grid (- q)" using 3 assms by (intro grid_mono_pos) simp_all
    then show ?thesis by (simp add: grid_neg)
  qed
qed

lemma rnd_grid: "rnd q = (let r = grid q in if 2 ^ 1024 \<le> r then PInf else if r \<le> - (2 ^ 1024) then NInf else Fin r)"
  by (simp add: rnd_def Let_def grid_0)

lemma rnd_not_NaN: "rnd q \<noteq> NaN"
  by (simp add: rnd_grid Let_def)

lemma rnd_mono: "q \<le> q' \<Longrightarrow> fle (rnd q) (rnd q')"
  using grid_mono[of q q'] by (auto simp: rnd_grid Let_def)

lemma fle_PInf: "x \<noteq> NaN \<Longrightarrow> fle x PInf"
  by (cases x) simp_all

lemma fle_NInf: "x \<noteq> NaN \<Longrightarrow> fle NInf x"
  by (cases x) simp_all

lemma c_to_f_not_NaN: "x \<noteq> NaN \<Longrightarrow> c_to_f x \<noteq> NaN"
proof -
  assume x: "x \<noteq> NaN"
  have 1: "fmul x (Fin 9) \<noteq> NaN" using x by (cases x) (simp_all add: rnd_not_NaN inf_of_sign_def)
  have 2: "fdivc (fmul x (Fin 9)) 5 \<noteq> NaN" using 1 by (cases "fmul x (Fin 9)") (simp_all add: rnd_not_NaN)
  show ?thesis unfolding c_to_f_def using 2
    by (cases "fdivc (fmul x (Fin 9)) 5") (simp_all add: rnd_not_NaN)
qed

lemma fmul9_mono: "fle a b \<Longrightarrow> fle (fmul a (Fin 9)) (fmul b (Fin 9))"
  by (cases a; cases b) (auto simp: rnd_mono inf_of_sign_def fle_PInf fle_NInf rnd_not_NaN)

lemma fdiv5_mono: "fle a b \<Longrightarrow> fle (fdivc a 5) (fdivc b 5)"
  by (cases a; cases b) (auto simp: rnd_mono divide_right_mono fle_PInf fle_NInf rnd_not_NaN)

lemma fadd32_mono: "fle a b \<Longrightarrow> fle (fadd a (Fin 32)) (fadd b (Fin 32))"
  by (cases a; cases b) (auto simp: rnd_mono fle_PInf fle_NInf rnd_not_NaN)

lemma c_to_f_mono: "fle a b \<Longrightarrow> fle (c_to_f a) (c_to_f b)"
  unfolding c_to_f_def by (intro fadd32_mono fdiv5_mono fmul9_mono)

lemma flt_fle: "flt a b \<Longrightarrow> fle a b"
  by (cases a; cases b) simp_all


subsection \<open>Concrete roundings\<close>

lemma grid_32: "grid 32 = 32"
  by code_simp




lemma grid_tiny_mul: "grid (9 / 2 ^ 60) = 9 / 2 ^ 60"
  by code_simp

lemma grid_tiny_div: "grid (9 / 2 ^ 60 / 5) = 8106479329266893 / 2 ^ 112"
  by code_simp

lemma grid_tiny_add: "grid (8106479329266893 / 2 ^ 112 + 32) = 32"
  by code_simp

lemma rnd_0: "rnd 0 = Fin 0"
  by (simp add: rnd_def)

lemma rnd_32: "rnd 32 = Fin 32"
  by (rule rnd_Fin[OF _ grid_32]) simp_all




lemma c_to_f_0: "c_to_f (Fin 0) = Fin 32"
  by (simp add: c_to_f_def rnd_0 rnd_32)


lemma c_to_f_tiny: "c_to_f (Fin (1 / 2 ^ 60)) = Fin 32"
proof -
  have r1: "rnd (9 / 2 ^ 60) = Fin (9 / 2 ^ 60)"
    by (rule rnd_Fin[OF _ grid_tiny_mul]) simp_all
  have r2: "rnd (9 / 2 ^ 60 / 5) = Fin (8106479329266893 / 2 ^ 112)"
    by (rule rnd_Fin[OF _ grid_tiny_div]) simp_all
  have r3: "rnd (8106479329266893 / 2 ^ 112 + 32) = Fin 32"
    by (rule rnd_Fin[OF _ grid_tiny_add]) simp_all
  have e1: "(1 / 2 ^ 60 * 9 :: rat) = 9 / 2 ^ 60" by simp
  show ?thesis
    by (simp only: c_to_f_def fmul.simps fdivc.simps fadd.simps e1 r1 r2 r3)
qed

section \<open>Properties of the display units\<close>

lemma lower_example_row: "lower_columns example_row = example_row"
  by (simp add: lower_columns_def example_row_def lower_char_def)








text \<open>
  C10, as stated, fails in float arithmetic: \<open>0.0 < 2 ** -60\<close>, but the sum with 32 rounds
  to 32 for both, so \<open>c_to_f\<close> maps them to the same value.
\<close>

theorem c_to_f_strict_counterexample:
  "flt (Fin 0) (Fin (1 / 2 ^ 60)) \<and> \<not> flt (c_to_f (Fin 0)) (c_to_f (Fin (1 / 2 ^ 60)))"
proof
  show "flt (Fin 0) (Fin (1 / 2 ^ 60))" by simp
  show "\<not> flt (c_to_f (Fin 0)) (c_to_f (Fin (1 / 2 ^ 60)))"
    unfolding c_to_f_0 c_to_f_tiny by simp
qed

text \<open>
  C10, amended: \<open>c_to_f\<close> is monotonically non-decreasing: \<open>a < b\<close> implies
  \<open>c_to_f a \<le> c_to_f b\<close>. Switching to Fahrenheit never reverses the order of two
  displayed temperatures; it may show two different ones as equal.
\<close>

theorem c_to_f_monotone: "flt a b \<Longrightarrow> fle (c_to_f a) (c_to_f b)"
  by (rule c_to_f_mono) (rule flt_fle)

theorem c_to_f_monotone_witness:
  "flt (Fin 0) (Fin 100) \<and> fle (c_to_f (Fin 0)) (c_to_f (Fin 100))"
  using c_to_f_monotone[of "Fin 0" "Fin 100"] by simp

section \<open>Properties of the series query\<close>

lemma filters_falsy: "\<not> truthy city \<Longrightarrow> list_all (\<lambda>f. f r) (filters city s e) = ts_between s e r"
  by (simp add: filters_def)

lemma load_data_falsy:
  assumes "\<not> truthy city"
    and "map_of (tables d) (SCHEMA, TABLE) = Some t"
    and "''collection_timestamp'' \<in> set (map fst (tcols t))"
  shows "load_data d city s e = Inr (map lower_columns (sort_key ts_key (filter (ts_between s e) (trows t))))"
proof -
  have c: "set (filter_columns city) \<subseteq> set (map fst (tcols t))"
    using assms(1,3) by (simp add: filter_columns_def)
  have f: "filter (\<lambda>r. list_all (\<lambda>f. f r) (filters city s e)) (trows t) = filter (ts_between s e) (trows t)"
    using assms(1) by (simp add: filters_falsy)
  show ?thesis
    using c by (simp add: load_data_def assms(2) f Let_def)
qed

lemma ts_between_D:
  "ts_between s e r \<Longrightarrow> \<exists>ts. map_of r ''collection_timestamp'' = Some (PTime ts) \<and> s \<le> ts \<and> ts \<le> e"
  by (auto simp: ts_between_def split: option.splits pyval.splits)

lemma lower_example_row2: "lower_columns example_row2 = example_row2"
  by (simp add: lower_columns_def example_row2_def lower_char_def)

lemma ts_key_examples: "ts_key example_row = 5" "ts_key example_row2 = 7"
  by (simp_all add: ts_key_def example_row_def example_row2_def)

lemma ts_between_examples:
  "ts_between s e example_row = (s \<le> 5 \<and> 5 \<le> e)"
  "ts_between s e example_row2 = (s \<le> 7 \<and> 7 \<le> e)"
  by (simp_all add: ts_between_def example_row_def example_row2_def)

lemma example_db2_table:
  "map_of (tables example_db2) (SCHEMA, TABLE)
     = Some (example_table\<lparr>trows := [example_row2, example_row], next_id := 3\<rparr>)"
  by (simp add: example_db2_def SCHEMA_def TABLE_def)

lemma example_table_ts_col: "''collection_timestamp'' \<in> set (map fst (tcols example_table))"
  by (simp add: example_table_def)

text \<open>
  C9: when \<open>city\<close> is \<open>None\<close> or the empty string, \<open>load_data\<close> applies no city filter:
  it returns, with lower-case column names, exactly the stored rows of every city whose
  \<open>collection_timestamp\<close> lies in the inclusive range from \<open>s\<close> to \<open>e\<close>, in ascending
  order of \<open>collection_timestamp\<close>.
\<close>

theorem load_data_without_city:
  assumes "city = None \<or> city = Some []"
    and "map_of (tables d) (SCHEMA, TABLE) = Some t"
    and "''collection_timestamp'' \<in> set (map fst (tcols t))"
  shows "\<exists>rows. load_data d city s e = Inr (map lower_columns rows)
           \<and> mset rows = mset (filter (ts_between s e) (trows t))
           \<and> sorted (map ts_key rows)
           \<and> (\<forall>r \<in> set rows. \<exists>ts. map_of r ''collection_timestamp'' = Some (PTime ts) \<and> s \<le> ts \<and> ts \<le> e)"
proof -
  have falsy: "\<not> truthy city" using assms(1) by (auto simp: truthy_def)
  let ?rows = "sort_key ts_key (filter (ts_between s e) (trows t))"
  have "load_data d city s e = Inr (map lower_columns ?rows)"
    using falsy assms(2,3) by (rule load_data_falsy)
  moreover have "mset ?rows = mset (filter (ts_between s e) (trows t))" by simp
  moreover have "sorted (map ts_key ?rows)" by (rule sorted_sort_key)
  moreover have "\<forall>r \<in> set ?rows. \<exists>ts. map_of r ''collection_timestamp'' = Some (PTime ts) \<and> s \<le> ts \<and> ts \<le> e"
    by (auto dest: ts_between_D)
  ultimately show ?thesis by blast
qed

theorem load_data_without_city_witness:
  "(Some [] = (None :: string option) \<or> Some [] = Some ([] :: string))
   \<and> map_of (tables example_db2) (SCHEMA, TABLE)
        = Some (example_table\<lparr>trows := [example_row2, example_row], next_id := 3\<rparr>)
   \<and> (\<exists>rows. load_data example_db2 (Some []) 0 10 = Inr (map lower_columns rows)
         \<and> mset rows = {#example_row2, example_row#}
         \<and> sorted (map ts_key rows))"
proof -
  have "''collection_timestamp''
      \<in> set (map fst (tcols (example_table\<lparr>trows := [example_row2, example_row], next_id := 3\<rparr>)))"
    using example_table_ts_col by simp
  from load_data_without_city[OF _ example_db2_table this, of "Some []" 0 10]
  obtain rows where "load_data example_db2 (Some []) 0 10 = Inr (map lower_columns rows)"
    and "mset rows = mset (filter (ts_between 0 10)
           (trows (example_table\<lparr>trows := [example_row2, example_row], next_id := 3\<rparr>)))"
    and "sorted (map ts_key rows)"
    by auto
  then show ?thesis
    using example_db2_table by (auto simp: ts_between_examples)
qed

section \<open>Properties of the latest row\<close>

lemma sorted_le_last: "sorted xs \<Longrightarrow> x \<in> set xs \<Longrightarrow> x \<le> last xs"
  by (induction xs) auto

lemma last_sort_key_max:
  assumes "xs \<noteq> []"
  shows "last (sort_key f xs) \<in> set xs \<and> (\<forall>x \<in> set xs. f x \<le> f (last (sort_key f xs)))"
proof -
  let ?ys = "sort_key f xs"
  have ne: "?ys \<noteq> []" using assms by (metis length_sort length_0_conv)
  have mem: "last ?ys \<in> set xs" using last_in_set[OF ne] by simp
  have "\<forall>x \<in> set xs. f x \<le> f (last ?ys)"
  proof
    fix x assume "x \<in> set xs"
    then have "f x \<in> set (map f ?ys)" by simp
    with sorted_sort_key[of f xs] have "f x \<le> last (map f ?ys)" by (rule sorted_le_last)
    then show "f x \<le> f (last ?ys)" using ne by (simp add: last_map)
  qed
  with mem show ?thesis by simp
qed

lemma main_empty:
  assumes "load_data d city (fst (default_range today)) (snd (default_range today)) = Inr []"
  shows "main d today city u = Inr (NoData, d)"
  using assms by (cases "default_range today") (simp add: main_def)

lemma main_nonempty:
  assumes "load_data d city (fst (default_range today)) (snd (default_range today)) = Inr df"
    and "df \<noteq> []"
  shows "main d today city u
     = (case render_hero (last (sort_key ts_key df)) u of Inl e \<Rightarrow> Inl e | Inr v \<Rightarrow> Inr (v, d))"
  using assms by (cases "default_range today") (simp add: main_def Let_def)

lemma load_data_empty_table:
  assumes "map_of (tables d) (SCHEMA, TABLE) = Some t"
    and "set (filter_columns city) \<subseteq> set (map fst (tcols t))"
    and "trows t = []"
  shows "load_data d city s e = Inr []"
  using assms by (simp add: load_data_def)

lemma load_data_example2:
  "load_data example_db2 None (fst (default_range 0)) (snd (default_range 0)) = Inr [example_row, example_row2]"
proof -
  have "load_data example_db2 None (fst (default_range 0)) (snd (default_range 0))
      = Inr (map lower_columns (sort_key ts_key (filter (ts_between (fst (default_range 0)) (snd (default_range 0)))
            (trows (example_table\<lparr>trows := [example_row2, example_row], next_id := 3\<rparr>)))))"
    by (rule load_data_falsy[OF _ example_db2_table]) (simp_all add: truthy_def example_table_def)
  then show ?thesis
    by (simp add: ts_between_examples default_range_def day_us_def ts_key_examples
        lower_example_row lower_example_row2)
qed

text \<open>
  C4: \<open>main\<close> takes as latest row the last row of the query result sorted by
  \<open>collection_timestamp\<close>: a row of the result whose timestamp no other row of the
  result exceeds, chosen by a function of the result alone. On an empty result \<open>main\<close>
  raises nothing and shows the "no data" warning; in particular so on an empty table.
\<close>

theorem latest_row_maximal:
  "(\<forall>df. load_data d city (fst (default_range today)) (snd (default_range today)) = Inr df \<longrightarrow>
      (df = [] \<longrightarrow> main d today city u = Inr (NoData, d))
      \<and> (df \<noteq> [] \<longrightarrow>
           last (sort_key ts_key df) \<in> set df
           \<and> (\<forall>r \<in> set df. ts_key r \<le> ts_key (last (sort_key ts_key df)))
           \<and> main d today city u
               = (case render_hero (last (sort_key ts_key df)) u of
                    Inl e \<Rightarrow> Inl e | Inr v \<Rightarrow> Inr (v, d))))
   \<and> (\<forall>t. map_of (tables d) (SCHEMA, TABLE) = Some t
          \<and> set (filter_columns city) \<subseteq> set (map fst (tcols t)) \<and> trows t = [] \<longrightarrow>
        main d today city u = Inr (NoData, d))"
proof (intro conjI allI impI)
  fix df
  assume "load_data d city (fst (default_range today)) (snd (default_range today)) = Inr df" "df = []"
  then show "main d today city u = Inr (NoData, d)" using main_empty by simp
next
  fix df :: "frame list"
  assume "df \<noteq> []"
  then show "last (sort_key ts_key df) \<in> set df" using last_sort_key_max by blast
next
  fix df :: "frame list"
  assume "df \<noteq> []"
  then show "\<forall>r \<in> set df. ts_key r \<le> ts_key (last (sort_key ts_key df))"
    using last_sort_key_max by blast
next
  fix df
  assume "load_data d city (fst (default_range today)) (snd (default_range today)) = Inr df" "df \<noteq> []"
  then show "main d today city u
      = (case render_hero (last (sort_key ts_key df)) u of Inl e \<Rightarrow> Inl e | Inr v \<Rightarrow> Inr (v, d))"
    by (rule main_nonempty)
next
  fix t
  assume "map_of (tables d) (SCHEMA, TABLE) = Some t
          \<and> set (filter_columns city) \<subseteq> set (map fst (tcols t)) \<and> trows t = []"
  then have "load_data d city (fst (default_range today)) (snd (default_range today)) = Inr []"
    using load_data_empty_table by blast
  then show "main d today city u = Inr (NoData, d)" by (rule main_empty)
qed

theorem latest_row_maximal_witness:
  "load_data example_db2 None (fst (default_range 0)) (snd (default_range 0)) = Inr [example_row, example_row2]
   \<and> last (sort_key ts_key [example_row, example_row2]) = example_row2
   \<and> ts_key example_row \<le> ts_key example_row2
   \<and> main example_empty_db 0 None False = Inr (NoData, example_empty_db)"
proof -
  have l: "last (sort_key ts_key [example_row, example_row2]) = example_row2"
    by (simp add: ts_key_examples)
  have t: "map_of (tables example_empty_db) (SCHEMA, TABLE) = Some (example_table\<lparr>trows := [], next_id := 1\<rparr>)"
    by (simp add: example_empty_db_def SCHEMA_def TABLE_def)
  have c: "set (filter_columns None) \<subseteq> set (map fst (tcols (example_table\<lparr>trows := [], next_id := 1\<rparr>)))"
    by (simp add: filter_columns_def truthy_def example_table_def)
  from latest_row_maximal[of example_db2 None 0 False] load_data_example2
  have "\<forall>r \<in> set [example_row, example_row2]. ts_key r \<le> ts_key (last (sort_key ts_key [example_row, example_row2]))"
    by blast
  moreover from latest_row_maximal[of example_empty_db None 0 False] t c
  have "main example_empty_db 0 None False = Inr (NoData, example_empty_db)"
    by auto
  ultimately show ?thesis using load_data_example2 l by simp
qed

section \<open>Properties of the provisioning\<close>

lemma ensure_schema_exists_result:
  "\<exists>d1. ensure_schema_exists d = Inr d1 \<and> ''weather'' \<in> set (schemas d1) \<and> tables d1 = tables d
     \<and> (distinct (schemas d) \<longrightarrow> distinct (schemas d1))
     \<and> (\<exists>extra. schemas d1 = schemas d @ extra)"
  by (auto simp: ensure_schema_exists_def)

lemma ensure_schema_exists_idem:
  "''weather'' \<in> set (schemas d) \<Longrightarrow> ensure_schema_exists d = Inr d"
  by (simp add: ensure_schema_exists_def)

lemma ensure_table_exists_result:
  assumes "''weather'' \<in> set (schemas d)"
  shows "\<exists>d1. ensure_table_exists d = Inr d1 \<and> schemas d1 = schemas d
     \<and> map_of (tables d1) (''weather'', ''weather_data'') \<noteq> None
     \<and> (distinct (map fst (tables d)) \<longrightarrow> distinct (map fst (tables d1)))
     \<and> (\<exists>extra. tables d1 = tables d @ extra)"
proof (cases "map_of (tables d) (''weather'', ''weather_data'')")
  case None
  then have "(''weather'', ''weather_data'') \<notin> set (map fst (tables d))"
    by (simp add: map_of_eq_None_iff)
  then show ?thesis using assms None
    by (auto simp: ensure_table_exists_def)
next
  case (Some t)
  then show ?thesis using assms
    by (auto simp: ensure_table_exists_def)
qed

lemma ensure_table_exists_idem:
  "''weather'' \<in> set (schemas d) \<Longrightarrow> map_of (tables d) (''weather'', ''weather_data'') \<noteq> None
     \<Longrightarrow> ensure_table_exists d = Inr d"
  by (auto simp: ensure_table_exists_def)

lemma provision_result:
  "\<exists>d1. provision d = Inr d1 \<and> ''weather'' \<in> set (schemas d1)
     \<and> map_of (tables d1) (''weather'', ''weather_data'') \<noteq> None
     \<and> (distinct (schemas d) \<longrightarrow> distinct (schemas d1))
     \<and> (distinct (map fst (tables d)) \<longrightarrow> distinct (map fst (tables d1)))
     \<and> (\<exists>extra. schemas d1 = schemas d @ extra)
     \<and> (\<exists>extra. tables d1 = tables d @ extra)"
proof -
  from ensure_schema_exists_result[of d] obtain d1 where
    1: "ensure_schema_exists d = Inr d1" "''weather'' \<in> set (schemas d1)" "tables d1 = tables d"
       "distinct (schemas d) \<longrightarrow> distinct (schemas d1)" "\<exists>extra. schemas d1 = schemas d @ extra"
    by blast
  from ensure_table_exists_result[OF 1(2)] obtain d2 where
    2: "ensure_table_exists d1 = Inr d2" "schemas d2 = schemas d1"
       "map_of (tables d2) (''weather'', ''weather_data'') \<noteq> None"
       "distinct (map fst (tables d1)) \<longrightarrow> distinct (map fst (tables d2))"
       "\<exists>extra. tables d2 = tables d1 @ extra"
    by blast
  have "provision d = Inr d2" by (simp add: provision_def 1(1) 2(1))
  then show ?thesis using 1 2 by auto
qed

lemma provision_idem:
  assumes "''weather'' \<in> set (schemas d)" "map_of (tables d) (''weather'', ''weather_data'') \<noteq> None"
  shows "provision d = Inr d"
  by (simp add: provision_def ensure_schema_exists_idem[OF assms(1)] ensure_table_exists_idem[OF assms])

lemma provision_empty_db:
  "provision empty_db
     = Inr \<lparr>schemas = [''weather''],
            tables = [((''weather'', ''weather_data''), \<lparr>tcols = weather_columns, trows = [], next_id = 1\<rparr>)]\<rparr>"
  by (simp add: provision_def ensure_schema_exists_def ensure_table_exists_def empty_db_def)

text \<open>
  C6: provisioning is idempotent. On every database state the first run succeeds, and a
  second run on its result succeeds and changes nothing. A run only appends: the schemas
  and tables that existed are kept as they were, in place, and a list of schemas or of
  table names that had no duplicate has none afterwards.
\<close>

theorem provision_idempotent:
  "\<exists>d1. provision d = Inr d1 \<and> provision d1 = Inr d1
     \<and> ''weather'' \<in> set (schemas d1)
     \<and> map_of (tables d1) (''weather'', ''weather_data'') \<noteq> None
     \<and> (distinct (schemas d) \<longrightarrow> distinct (schemas d1))
     \<and> (distinct (map fst (tables d)) \<longrightarrow> distinct (map fst (tables d1)))
     \<and> (\<exists>extra. schemas d1 = schemas d @ extra)
     \<and> (\<exists>extra. tables d1 = tables d @ extra)"
proof -
  from provision_result[of d] obtain d1 where
    r: "provision d = Inr d1" "''weather'' \<in> set (schemas d1)"
       "map_of (tables d1) (''weather'', ''weather_data'') \<noteq> None"
       "distinct (schemas d) \<longrightarrow> distinct (schemas d1)"
       "distinct (map fst (tables d)) \<longrightarrow> distinct (map fst (tables d1))"
       "\<exists>extra. schemas d1 = schemas d @ extra"
       "\<exists>extra. tables d1 = tables d @ extra"
    by blast
  have "provision d1 = Inr d1" using r(2,3) by (rule provision_idem)
  with r show ?thesis by blast
qed

theorem provision_idempotent_witness:
  "distinct (schemas empty_db) \<and> distinct (map fst (tables empty_db))
   \<and> (\<exists>d1. provision empty_db = Inr d1 \<and> provision d1 = Inr d1
         \<and> schemas d1 = [''weather''] \<and> map fst (tables d1) = [(''weather'', ''weather_data'')]
         \<and> distinct (schemas d1) \<and> distinct (map fst (tables d1)))"
proof -
  from provision_idempotent[of empty_db] obtain d1 where
    "provision empty_db = Inr d1" "provision d1 = Inr d1"
    "distinct (schemas empty_db) \<longrightarrow> distinct (schemas d1)"
    "distinct (map fst (tables empty_db)) \<longrightarrow> distinct (map fst (tables d1))"
    by blast
  then show ?thesis
    using provision_empty_db by (auto simp: empty_db_def)
qed

section \<open>Properties of the append\<close>

lemma cell_for_id:
  assumes "map_of df ''id'' = None"
  shows "cell_for rows nid df (''id'', TSerial, True)
     = (if \<not> (- (2 ^ 31) \<le> nid \<and> nid < 2 ^ 31) then Inl DataError
        else if key_stored ''id'' (PInt nid) rows then Inl IntegrityError
        else Inr (PInt nid))"
  using assms by (simp add: cell_for_def accepts_def)

lemma cell_for_plain:
  "ty \<noteq> TSerial \<Longrightarrow> cell_for rows nid df (name, ty, nn) = cell_for [] 0 df (name, ty, nn)"
  by (auto simp: cell_for_def Let_def split: option.splits)

lemma build_row_plain:
  "\<forall>c \<in> set cols. fst (snd c) \<noteq> TSerial \<Longrightarrow> build_row rows nid df cols = build_row [] 0 df cols"
proof (induction cols)
  case Nil
  then show ?case by simp
next
  case (Cons col cols)
  obtain name ty nn where col: "col = (name, ty, nn)" by (cases col) auto
  have "ty \<noteq> TSerial" using Cons.prems col by simp
  then have c: "cell_for rows nid df col = cell_for [] 0 df col"
    unfolding col by (rule cell_for_plain)
  have ih: "build_row rows nid df cols = build_row [] 0 df cols"
    using Cons.IH Cons.prems by simp
  show ?case by (simp only: build_row.simps c ih)
qed

lemma valid_cell_cell_for:
  "ty \<noteq> TSerial \<Longrightarrow> valid_cell df (name, ty, nn) \<Longrightarrow> \<exists>v. cell_for [] 0 df (name, ty, nn) = Inr v"
  by (auto simp: valid_cell_def cell_for_def Let_def split: option.splits if_splits)

lemma build_row_valid:
  "\<forall>c \<in> set cols. fst (snd c) \<noteq> TSerial \<Longrightarrow> list_all (valid_cell df) cols
     \<Longrightarrow> \<exists>r. build_row [] 0 df cols = Inr r"
proof (induction cols)
  case Nil
  then show ?case by simp
next
  case (Cons col cols)
  obtain name ty nn where col: "col = (name, ty, nn)" by (cases col) auto
  have "ty \<noteq> TSerial" "valid_cell df (name, ty, nn)" using Cons.prems col by simp_all
  then obtain v where v: "cell_for [] 0 df col = Inr v"
    unfolding col using valid_cell_cell_for by blast
  obtain r where r: "build_row [] 0 df cols = Inr r"
    using Cons.IH Cons.prems by auto
  show ?case by (simp add: v r)
qed

lemma cell_for_given:
  "cell_for rows nid df (name, ty, nn) = Inr v \<Longrightarrow> map_of df name = Some x \<Longrightarrow> v = to_sql_value x"
  by (auto simp: cell_for_def Let_def split: if_splits)

lemma build_row_lookup:
  "build_row rows nid df cols = Inr r \<Longrightarrow> name \<in> fst ` set cols \<Longrightarrow> map_of df name = Some x
     \<Longrightarrow> map_of r name = Some (to_sql_value x)"
proof (induction cols arbitrary: r)
  case Nil
  then show ?case by simp
next
  case (Cons col cols)
  obtain n ty nn where col: "col = (n, ty, nn)" by (cases col) auto
  from Cons.prems(1) obtain v r' where
    v: "cell_for rows nid df col = Inr v" and r': "build_row rows nid df cols = Inr r'"
    and r: "r = (fst col, v) # r'"
    by (auto split: sum.splits)
  show ?case
  proof (cases "n = name")
    case True
    then have "v = to_sql_value x" using v Cons.prems(3) col cell_for_given by blast
    then show ?thesis using r col True by simp
  next
    case False
    then have "name \<in> fst ` set cols" using Cons.prems(2) col by auto
    then have "map_of r' name = Some (to_sql_value x)" using Cons.IH r' Cons.prems(3) by blast
    then show ?thesis using r col False by simp
  qed
qed

lemma weather_columns_split: "weather_columns = (''id'', TSerial, True) # tl weather_columns"
  by (simp add: weather_columns_def)

lemma tl_weather_plain: "\<forall>c \<in> set (tl weather_columns). fst (snd c) \<noteq> TSerial"
  by (simp add: weather_columns_def)

lemma weather_names: "fst ` set weather_columns = insert ''id'' (fst ` set (tl weather_columns))"
  by (subst weather_columns_split) simp

lemma weather_ts_col: "''collection_timestamp'' \<in> set (map fst weather_columns)"
  by (simp add: weather_columns_def)

lemma weather_has_serial:
  "map_of df ''id'' = None \<Longrightarrow> \<exists>c \<in> set weather_columns. fst (snd c) = TSerial \<and> map_of df (fst c) = None"
  by (subst weather_columns_split) simp

lemma build_row_weather:
  assumes "map_of df ''id'' = None"
    and "build_row [] 0 df (tl weather_columns) = Inr rest"
    and "- (2 ^ 31) \<le> nid" and "nid < 2 ^ 31"
    and "\<not> key_stored ''id'' (PInt nid) rows"
  shows "build_row rows nid df weather_columns = Inr ((''id'', PInt nid) # rest)"
proof -
  have "build_row rows nid df (tl weather_columns) = Inr rest"
    by (subst build_row_plain[OF tl_weather_plain]) (rule assms(2))
  moreover have "cell_for rows nid df (''id'', TSerial, True) = Inr (PInt nid)"
    using assms(3,4,5) by (simp add: cell_for_id[OF assms(1)])
  ultimately have "build_row rows nid df ((''id'', TSerial, True) # tl weather_columns)
      = Inr ((''id'', PInt nid) # rest)"
    by simp
  then show ?thesis using weather_columns_split by simp
qed

lemma insert_row_weather:
  assumes "tcols t = weather_columns"
    and "set (map fst df) \<subseteq> set (map fst weather_columns)"
    and "map_of df ''id'' = None"
    and "build_row [] 0 df (tl weather_columns) = Inr rest"
    and "- (2 ^ 31) \<le> next_id t" and "next_id t < 2 ^ 31"
    and "\<not> key_stored ''id'' (PInt (next_id t)) (trows t)"
  shows "insert_row t df
     = Inr (t\<lparr>trows := trows t @ [(''id'', PInt (next_id t)) # rest], next_id := next_id t + 1\<rparr>)"
proof -
  have b: "build_row (trows t) (next_id t) df weather_columns = Inr ((''id'', PInt (next_id t)) # rest)"
    using assms(3,4,5,6,7) by (rule build_row_weather)
  have s: "\<exists>c \<in> set weather_columns. fst (snd c) = TSerial \<and> map_of df (fst c) = None"
    using assms(3) by (rule weather_has_serial)
  show ?thesis
    using assms(2) s by (simp add: insert_row_def assms(1) b)
qed

lemma inv_fresh:
  "list_all (\<lambda>r. case map_of r ''id'' of Some (PInt i) \<Rightarrow> i < nid | _ \<Rightarrow> False) rows \<Longrightarrow> nid \<le> k
     \<Longrightarrow> \<not> key_stored ''id'' (PInt k) rows"
  by (auto simp: key_stored_def list_all_iff list_ex_iff)

lemma map_of_put_table: "map_of (put_table k t ts) k = Some t"
  by (induction ts) auto

lemma load_eq:
  "load d df =
     (case provision d of
        Inl e \<Rightarrow> Inl e
      | Inr d2 \<Rightarrow>
          (case map_of (tables d2) (''weather'', ''weather_data'') of
             None \<Rightarrow> Inl ProgrammingError
           | Some t \<Rightarrow>
               (case insert_row t df of
                  Inl e \<Rightarrow> Inl e
                | Inr t' \<Rightarrow> Inr (d2\<lparr>tables := put_table (''weather'', ''weather_data'') t' (tables d2)\<rparr>))))"
  by (simp add: load_def provision_def split: sum.splits)

lemma provision_pipeline:
  assumes "pipeline_db d"
  shows "\<exists>dp t0. provision d = Inr dp \<and> map_of (tables dp) (''weather'', ''weather_data'') = Some t0
           \<and> pipeline_table t0 \<and> ''weather'' \<in> set (schemas dp)"
proof (cases "map_of (tables d) (''weather'', ''weather_data'')")
  case None
  then show ?thesis
    by (auto simp: provision_def ensure_schema_exists_def ensure_table_exists_def
        pipeline_table_def map_add_def)
next
  case (Some t)
  then show ?thesis using assms
    by (auto simp: provision_def ensure_schema_exists_def ensure_table_exists_def pipeline_db_def)
qed

lemma load_pipeline:
  assumes "''weather'' \<in> set (schemas dp)"
    and "map_of (tables dp) (''weather'', ''weather_data'') = Some t"
    and "tcols t = weather_columns"
    and "set (map fst df) \<subseteq> set (map fst weather_columns)"
    and "map_of df ''id'' = None"
    and "build_row [] 0 df (tl weather_columns) = Inr rest"
    and "- (2 ^ 31) \<le> next_id t" and "next_id t < 2 ^ 31"
    and "\<not> key_stored ''id'' (PInt (next_id t)) (trows t)"
  shows "load dp df
     = Inr (dp\<lparr>tables := put_table (''weather'', ''weather_data'')
              (t\<lparr>trows := trows t @ [(''id'', PInt (next_id t)) # rest], next_id := next_id t + 1\<rparr>)
              (tables dp)\<rparr>)"
proof -
  have p: "provision dp = Inr dp" using assms(1,2) by (intro provision_idem) simp_all
  have i: "insert_row t df
     = Inr (t\<lparr>trows := trows t @ [(''id'', PInt (next_id t)) # rest], next_id := next_id t + 1\<rparr>)"
    using assms(3-9) by (rule insert_row_weather)
  show ?thesis by (simp add: load_eq p assms(2) i)
qed

lemma load_after_provision:
  "provision d = Inr dp \<Longrightarrow> load d df = load dp df"
proof -
  assume p: "provision d = Inr dp"
  from provision_result[of d] p have "''weather'' \<in> set (schemas dp)"
    "map_of (tables dp) (''weather'', ''weather_data'') \<noteq> None" by auto
  then have "provision dp = Inr dp" by (rule provision_idem)
  then show ?thesis using p by (simp add: load_eq)
qed

lemma mset_sorted_filter_append2:
  assumes "P r1" "P r2"
  shows "mset (map f (sort_key k (filter P (xs @ [r1, r2]))))
     = mset (map f (filter P xs)) + {#f r1, f r2#}"
  using assms by simp

text \<open>
  C8: appending the same WeatherRow twice succeeds both times, with no deduplication.
  From a database whose weather table, if it exists, is the pipeline's, both loads
  return a new state; the table then holds its former rows followed by two rows that
  carry the values of the WeatherRow and differ in their key only; and a range query
  whose inclusive window contains the row's \<open>collection_timestamp\<close> returns both of
  them, next to the former rows in the window.
\<close>

theorem append_twice_visible:
  assumes "pipeline_db d" and "valid_weather_row df"
    and "map_of df ''collection_timestamp'' = Some (PTime ts)" and "s \<le> ts" and "ts \<le> e"
  shows "\<exists>d1 d2 dp t0 t2 r1 r2 res.
           load d df = Inr d1 \<and> load d1 df = Inr d2
         \<and> provision d = Inr dp \<and> map_of (tables dp) (''weather'', ''weather_data'') = Some t0
         \<and> map_of (tables d2) (''weather'', ''weather_data'') = Some t2
         \<and> trows t2 = trows t0 @ [r1, r2] \<and> r1 \<noteq> r2
         \<and> (\<forall>k x. map_of df k = Some x \<longrightarrow>
               map_of r1 k = Some (to_sql_value x) \<and> map_of r2 k = Some (to_sql_value x))
         \<and> load_data d2 None s e = Inr res
         \<and> mset res = mset (map lower_columns (filter (ts_between s e) (trows t0)))
                        + {#lower_columns r1, lower_columns r2#}"
proof -
  let ?key = "(''weather'', ''weather_data'')"
  from provision_pipeline[OF assms(1)] obtain dp t0 where
    p: "provision d = Inr dp" and t0: "map_of (tables dp) ?key = Some t0"
    and pt: "pipeline_table t0" and sch: "''weather'' \<in> set (schemas dp)"
    by blast
  have cols: "set (map fst df) \<subseteq> set (map fst weather_columns)"
    and noid: "map_of df ''id'' = None"
    and cells: "list_all (valid_cell df) (tl weather_columns)"
    using assms(2) by (simp_all add: valid_weather_row_def)
  from build_row_valid[OF tl_weather_plain cells] obtain rest where
    rest: "build_row [] 0 df (tl weather_columns) = Inr rest" by blast
  define n where "n = next_id t0"
  have tc: "tcols t0 = weather_columns" and lo: "- (2 ^ 31) \<le> n" and hi: "n + 1 < 2 ^ 31"
    and inv: "list_all (\<lambda>r. case map_of r ''id'' of Some (PInt i) \<Rightarrow> i < n | _ \<Rightarrow> False) (trows t0)"
    using pt unfolding n_def by (simp_all add: pipeline_table_def)
  define r1 where "r1 = (''id'', PInt n) # rest"
  define r2 where "r2 = (''id'', PInt (n + 1)) # rest"
  define t1 where "t1 = t0\<lparr>trows := trows t0 @ [r1], next_id := n + 1\<rparr>"
  define d1 where "d1 = dp\<lparr>tables := put_table ?key t1 (tables dp)\<rparr>"
  define t2 where "t2 = t1\<lparr>trows := trows t1 @ [r2], next_id := n + 1 + 1\<rparr>"
  define d2 where "d2 = d1\<lparr>tables := put_table ?key t2 (tables d1)\<rparr>"
  have fresh1: "\<not> key_stored ''id'' (PInt n) (trows t0)"
    using inv by (rule inv_fresh) simp
  have "load dp df = Inr d1"
    unfolding d1_def t1_def r1_def n_def
    using sch t0 tc cols noid rest lo[unfolded n_def] _ fresh1[unfolded n_def]
    by (rule load_pipeline) (use hi in \<open>simp add: n_def\<close>)
  then have l1: "load d df = Inr d1" using load_after_provision[OF p] by simp
  have sch1: "''weather'' \<in> set (schemas d1)" using sch by (simp add: d1_def)
  have tb1: "map_of (tables d1) ?key = Some t1" by (simp add: d1_def map_of_put_table)
  have tc1: "tcols t1 = weather_columns" using tc by (simp add: t1_def)
  have n1: "next_id t1 = n + 1" by (simp add: t1_def)
  have rows1: "trows t1 = trows t0 @ [r1]" by (simp add: t1_def)
  have "\<not> key_stored ''id'' (PInt (n + 1)) (trows t0)"
    using inv by (rule inv_fresh) simp
  then have fresh2: "\<not> key_stored ''id'' (PInt (next_id t1)) (trows t1)"
    by (simp add: n1 rows1 key_stored_def r1_def)
  have l2: "load d1 df = Inr d2"
    unfolding d2_def t2_def r2_def n1[symmetric]
    using sch1 tb1 tc1 cols noid rest _ _ fresh2
    by (rule load_pipeline) (use lo hi in \<open>simp_all add: n1\<close>)
  have tb2: "map_of (tables d2) ?key = Some t2" by (simp add: d2_def map_of_put_table)
  have rows2: "trows t2 = trows t0 @ [r1, r2]" by (simp add: t2_def rows1)
  have ne: "r1 \<noteq> r2" by (simp add: r1_def r2_def)
  have vals: "\<forall>k x. map_of df k = Some x \<longrightarrow>
      map_of r1 k = Some (to_sql_value x) \<and> map_of r2 k = Some (to_sql_value x)"
  proof (intro allI impI)
    fix k x
    assume kx: "map_of df k = Some x"
    then have "k \<noteq> ''id''" using noid by auto
    moreover have "k \<in> fst ` set df" using kx by (metis map_of_eq_None_iff option.distinct(1))
    then have "k \<in> fst ` set weather_columns" using cols by auto
    ultimately have "k \<in> fst ` set (tl weather_columns)" using weather_names by auto
    then have "map_of rest k = Some (to_sql_value x)" by (rule build_row_lookup[OF rest _ kx])
    then show "map_of r1 k = Some (to_sql_value x) \<and> map_of r2 k = Some (to_sql_value x)"
      using \<open>k \<noteq> ''id''\<close> by (simp add: r1_def r2_def)
  qed
  have "map_of r1 ''collection_timestamp'' = Some (PTime ts)"
    "map_of r2 ''collection_timestamp'' = Some (PTime ts)"
    using vals assms(3) by (auto simp: to_sql_value_def)
  then have in1: "ts_between s e r1" and in2: "ts_between s e r2"
    using assms(4,5) by (simp_all add: ts_between_def)
  have tsc: "''collection_timestamp'' \<in> set (map fst (tcols t2))"
    using weather_ts_col tc1 by (simp add: t2_def)
  have "\<not> truthy None" by (simp add: truthy_def)
  then have ld: "load_data d2 None s e
      = Inr (map lower_columns (sort_key ts_key (filter (ts_between s e) (trows t2))))"
    using tb2[unfolded SCHEMA_def[symmetric] TABLE_def[symmetric]] tsc by (rule load_data_falsy)
  have ms: "mset (map lower_columns (sort_key ts_key (filter (ts_between s e) (trows t2))))
      = mset (map lower_columns (filter (ts_between s e) (trows t0))) + {#lower_columns r1, lower_columns r2#}"
    unfolding rows2 using in1 in2 by (rule mset_sorted_filter_append2)
  from l1 l2 p t0 tb2 rows2 ne vals ld ms show ?thesis by blast
qed

lemma valid_example_weather_row: "valid_weather_row example_weather_row"
  by (simp add: valid_weather_row_def weather_columns_def valid_cell_def example_weather_row_def
      to_sql_value_def accepts_def)

lemma provision_empty_table:
  "provision empty_db = Inr dp \<Longrightarrow> map_of (tables dp) (''weather'', ''weather_data'') = Some t0
     \<Longrightarrow> trows t0 = []"
  using provision_empty_db by auto

theorem append_twice_visible_witness:
  "pipeline_db empty_db \<and> valid_weather_row example_weather_row
   \<and> map_of example_weather_row ''collection_timestamp'' = Some (PTime 5)
   \<and> (\<exists>d1 d2 t2 r1 r2 res.
         load empty_db example_weather_row = Inr d1 \<and> load d1 example_weather_row = Inr d2
       \<and> map_of (tables d2) (''weather'', ''weather_data'') = Some t2
       \<and> trows t2 = [r1, r2] \<and> r1 \<noteq> r2
       \<and> map_of r1 ''city'' = Some (PStr ''Rio de Janeiro'')
       \<and> map_of r2 ''city'' = Some (PStr ''Rio de Janeiro'')
       \<and> load_data d2 None 0 10 = Inr res
       \<and> mset res = {#lower_columns r1, lower_columns r2#})"
proof -
  have a: "pipeline_db empty_db" by (simp add: pipeline_db_def empty_db_def)
  have c: "map_of example_weather_row ''collection_timestamp'' = Some (PTime 5)"
    by (simp add: example_weather_row_def)
  have city: "map_of example_weather_row ''city'' = Some (PStr ''Rio de Janeiro'')"
    by (simp add: example_weather_row_def)
  from append_twice_visible[OF a valid_example_weather_row c, of 0 10]
  obtain d1 d2 dp t0 t2 r1 r2 res where
    h: "load empty_db example_weather_row = Inr d1" "load d1 example_weather_row = Inr d2"
       "provision empty_db = Inr dp" "map_of (tables dp) (''weather'', ''weather_data'') = Some t0"
       "map_of (tables d2) (''weather'', ''weather_data'') = Some t2"
       "trows t2 = trows t0 @ [r1, r2]" "r1 \<noteq> r2"
       "\<forall>k x. map_of example_weather_row k = Some x \<longrightarrow>
               map_of r1 k = Some (to_sql_value x) \<and> map_of r2 k = Some (to_sql_value x)"
       "load_data d2 None 0 10 = Inr res"
       "mset res = mset (map lower_columns (filter (ts_between 0 10) (trows t0)))
                        + {#lower_columns r1, lower_columns r2#}"
    by auto
  have e: "trows t0 = []" using h(3,4) by (rule provision_empty_table)
  have "map_of r1 ''city'' = Some (PStr ''Rio de Janeiro'')" "map_of r2 ''city'' = Some (PStr ''Rio de Janeiro'')"
    using h(8) city by (auto simp: to_sql_value_def)
  with h e have "\<exists>d1 d2 t2 r1 r2 res.
         load empty_db example_weather_row = Inr d1 \<and> load d1 example_weather_row = Inr d2
       \<and> map_of (tables d2) (''weather'', ''weather_data'') = Some t2
       \<and> trows t2 = [r1, r2] \<and> r1 \<noteq> r2
       \<and> map_of r1 ''city'' = Some (PStr ''Rio de Janeiro'')
       \<and> map_of r2 ''city'' = Some (PStr ''Rio de Janeiro'')
       \<and> load_data d2 None 0 10 = Inr res
       \<and> mset res = {#lower_columns r1, lower_columns r2#}"
    by (intro exI[of _ d1] exI[of _ d2] exI[of _ t2] exI[of _ r1] exI[of _ r2] exI[of _ res]) simp
  with a valid_example_weather_row c show ?thesis by blast
qed

section \<open>Properties of the hourly resampling\<close>


lemma bucket_start_aligned: "bucket_start t mod hour_us = 0"
  by (simp add: bucket_start_def)
















end
